theory Spec2Isabelle
  imports Complex_Main "HOL-Library.Word"
begin

section \<open>JavaScript numbers\<close>

text \<open>
  The sizes and percentages of \<open>optimizer.server.js\<close> are JavaScript numbers, that is
  IEEE-754 doubles. A finite double is modelled by the rational it denotes; the three
  special values that the arithmetic of the code can produce are constructors of their
  own. Signed zeros are not distinguished, and overflow to infinity is not modelled: all
  quantities of the code are kilobyte counts and percentages, far inside the normal range.
\<close>

datatype jsnum = Num rat | NaN | PosInf | NegInf

fun log2floor :: "nat \<Rightarrow> nat" where
  "log2floor n = (if n < 2 then 0 else Suc (log2floor (n div 2)))"

declare log2floor.simps [simp del]

definition pow2 :: "int \<Rightarrow> rat" where
  "pow2 k = (if 0 \<le> k then 2 ^ nat k else 1 / 2 ^ nat (- k))"

text \<open>\<open>ilog2 q\<close> is the exponent \<open>k\<close> with \<open>2^k \<le> q < 2^(k+1)\<close>, for \<open>q > 0\<close>.\<close>

definition ilog2 :: "rat \<Rightarrow> int" where
  "ilog2 q =
     (let (n, d) = quotient_of q;
          k = int (log2floor (nat n)) - int (log2floor (nat d))
      in if pow2 k \<le> q then k else k - 1)"

text \<open>
  \<open>fl q\<close> rounds \<open>q\<close> to the nearest double (53 significant bits, ties to even), in the
  normal range.
\<close>

definition fl :: "rat \<Rightarrow> rat" where
  "fl q =
     (if q = 0 then 0
      else
        let a = \<bar>q\<bar>;
            e = ilog2 a - 52;
            s = a / pow2 e;
            m = \<lfloor>s\<rfloor>;
            r = s - of_int m;
            m' = (if r < 1 / 2 then m
                  else if 1 / 2 < r then m + 1
                  else if even m then m else m + 1)
        in sgn q * of_int m' * pow2 e)"

fun js_div :: "jsnum \<Rightarrow> jsnum \<Rightarrow> jsnum" where
  "js_div (Num x) (Num y) =
     (if y = 0 then (if x = 0 then NaN else if 0 < x then PosInf else NegInf)
      else Num (fl (x / y)))"
| "js_div NaN _ = NaN"
| "js_div _ NaN = NaN"
| "js_div (Num x) _ = Num 0"
| "js_div PosInf (Num y) = (if 0 \<le> y then PosInf else NegInf)"
| "js_div NegInf (Num y) = (if 0 \<le> y then NegInf else PosInf)"
| "js_div _ _ = NaN"

fun js_mul :: "jsnum \<Rightarrow> jsnum \<Rightarrow> jsnum" where
  "js_mul (Num x) (Num y) = Num (fl (x * y))"
| "js_mul NaN _ = NaN"
| "js_mul _ NaN = NaN"
| "js_mul PosInf (Num y) = (if y = 0 then NaN else if 0 < y then PosInf else NegInf)"
| "js_mul NegInf (Num y) = (if y = 0 then NaN else if 0 < y then NegInf else PosInf)"
| "js_mul (Num x) PosInf = (if x = 0 then NaN else if 0 < x then PosInf else NegInf)"
| "js_mul (Num x) NegInf = (if x = 0 then NaN else if 0 < x then NegInf else PosInf)"
| "js_mul PosInf PosInf = PosInf"
| "js_mul NegInf NegInf = PosInf"
| "js_mul PosInf NegInf = NegInf"
| "js_mul NegInf PosInf = NegInf"

text \<open>\<open>Math.round\<close>: the nearest integer, a tie going up; \<open>NaN\<close> and the infinities stay.\<close>

definition round_half_up :: "rat \<Rightarrow> int" where
  "round_half_up x = \<lfloor>x + 1 / 2\<rfloor>"

fun Math_round :: "jsnum \<Rightarrow> jsnum" where
  "Math_round (Num x) = Num (of_int (round_half_up x))"
| "Math_round n = n"

text \<open>
  The expression \<open>Math.round(((a - b) / a) * 100)\<close> on two whole numbers, as it stands in
  \<open>scanShop\<close>, \<open>commitImage\<close> and \<open>processItem\<close>. The difference of two kilobyte counts is
  exact in doubles; the quotient and the product are rounded.
\<close>

definition percent_of :: "int \<Rightarrow> int \<Rightarrow> jsnum" where
  "percent_of a b =
     Math_round (js_mul (js_div (Num (of_int (a - b))) (Num (of_int a))) (Num 100))"

text \<open>
  \<open>Math.round(buffer.length / 1024)\<close>: a division by a power of two is exact in doubles,
  so the rounding is that of the exact quotient.
\<close>

definition roundKb :: "nat \<Rightarrow> int" where
  "roundKb len = round_half_up (of_nat len / 1024)"


section \<open>Data\<close>

type_synonym byte = "8 word"

text \<open>
  A row of the table \<open>ImageRecord\<close> (\<open>prisma/migrations\<close>). The column
  \<open>shopifyImageId\<close> carries a unique index. The surrogate key \<open>id\<close> and the two
  timestamps play no part in the optimizer and are left out.
\<close>

record ImageRecord =
  shopifyImageId :: string
  productId :: string
  originalUrl :: string
  optimizedUrl :: "string option"
  status :: string
  savingsKb :: int
  originalKb :: int
  optimizedKb :: int

text \<open>An entry of the scan result, which is also the \<open>item\<close> given to commit and restore.\<close>

record Item =
  item_id :: string
  url :: string
  parentId :: string
  parentTitle :: string
  item_type :: string
  width :: "nat option"
  height :: "nat option"
  alt :: "string option"
  optimized :: bool
  savedKb :: int
  item_originalKb :: int
  item_optimizedKb :: int
  item_percent :: jsnum

record Session =
  shop :: string
  accessToken :: string

record CommitResult =
  beforeKb :: int
  afterKb :: int
  percent :: jsnum
  newId :: string

datatype error =
    InvalidSession
  | DownloadFailed nat
  | ImageProcessingFailed string
  | UploadFailed nat
  | NoImageIdReturned
  | OriginalNotFound
  | RestoreFailed nat
  | Thrown string

section \<open>The outside world\<close>

text \<open>
  One call of the \<open>sharp\<close> pipeline: the input buffer, \<open>rotate()\<close>, the optional
  \<open>resize\<close> (always with \<open>withoutEnlargement\<close>), and the encoder with its options.
\<close>

datatype encoder = Webp nat | Avif nat nat

record SharpCall =
  input :: "byte list"
  rotate :: bool
  resize_width :: "nat option"
  encode :: encoder

record HttpResponse =
  ok :: bool
  http_status :: nat
  body :: "byte list"

text \<open>
  The body of a \<open>PUT\<close> to \<open>/products/<p>/images/<i>.json\<close>: the image id with either
  the new bytes and a file name (commit) or a source URL (restore).
\<close>

datatype PutBody =
    Attachment string "byte list" string
  | Src string string

record PutRequest =
  put_url :: string
  put_token :: string
  put_body :: PutBody

record UploadedImage =
  image_id :: "nat option"
  image_src :: "string option"

record PutResponse =
  put_ok :: bool
  put_status :: nat
  put_image :: "UploadedImage option"

record Img =
  img_id :: string
  img_url :: string
  img_width :: "nat option"
  img_height :: "nat option"
  altText :: "string option"

record Product =
  product_id :: string
  title :: string
  images :: "Img list"

text \<open>
  One page of the \<open>getProducts\<close> query. Absent parts of the response read as the code
  reads them: no \<open>nodes\<close> is the empty list, no \<open>hasNextPage\<close> is false.
\<close>

record Page =
  nodes :: "Product list"
  hasNextPage :: bool
  endCursor :: "string option"

datatype DbCall =
    FindMany
  | FindUnique string
  | Upsert string
  | DeleteMany "string list"
  | Delete string

text \<open>
  Everything the optimizer calls and does not own. A call that throws (a rejected
  \<open>fetch\<close>, a failing encoder, a database error) answers \<open>Inl\<close> with the message;
  \<open>prisma_throws\<close> says which database calls throw.
\<close>

record Env =
  fetch_get :: "string \<Rightarrow> string + HttpResponse"
  sharp_toBuffer :: "SharpCall \<Rightarrow> string + byte list"
  fetch_put :: "PutRequest \<Rightarrow> string + PutResponse"
  graphql :: "string option \<Rightarrow> string + Page"
  prisma_throws :: "DbCall \<Rightarrow> string option"

text \<open>
  The state the optimizer changes: the rows of the table, and two logs, of the database
  writes carried out and of the \<open>PUT\<close> requests issued to the shop, in order.
\<close>

record World =
  rows :: "ImageRecord list"
  db_log :: "DbCall list"
  http_log :: "PutRequest list"

section \<open>The record store\<close>

definition has_key :: "string \<Rightarrow> ImageRecord list \<Rightarrow> bool" where
  "has_key k rs = (k \<in> set (map shopifyImageId rs))"

definition prisma_findMany :: "Env \<Rightarrow> World \<Rightarrow> string + ImageRecord list" where
  "prisma_findMany env w =
     (case prisma_throws env FindMany of
        Some m \<Rightarrow> Inl m
      | None \<Rightarrow> Inr (rows w))"

definition prisma_findUnique :: "Env \<Rightarrow> string \<Rightarrow> World \<Rightarrow> string + ImageRecord option" where
  "prisma_findUnique env k w =
     (case prisma_throws env (FindUnique k) of
        Some m \<Rightarrow> Inl m
      | None \<Rightarrow> Inr (find (\<lambda>r. shopifyImageId r = k) (rows w)))"

text \<open>\<open>upsert\<close>: update the row under the key where there is one, create it otherwise.\<close>

definition prisma_upsert ::
  "Env \<Rightarrow> string \<Rightarrow> (ImageRecord \<Rightarrow> ImageRecord) \<Rightarrow> ImageRecord \<Rightarrow> World \<Rightarrow> string + World" where
  "prisma_upsert env k update create w =
     (case prisma_throws env (Upsert k) of
        Some m \<Rightarrow> Inl m
      | None \<Rightarrow>
          Inr (w\<lparr>rows :=
                   (if has_key k (rows w)
                    then map (\<lambda>r. if shopifyImageId r = k then update r else r) (rows w)
                    else rows w @ [create]),
                 db_log := db_log w @ [Upsert k]\<rparr>))"

text \<open>\<open>deleteMany({where: {shopifyImageId: {in: ks}}})\<close>; no matching row is no error.\<close>

definition prisma_deleteMany :: "Env \<Rightarrow> string list \<Rightarrow> World \<Rightarrow> string + World" where
  "prisma_deleteMany env ks w =
     (case prisma_throws env (DeleteMany ks) of
        Some m \<Rightarrow> Inl m
      | None \<Rightarrow>
          Inr (w\<lparr>rows := filter (\<lambda>r. shopifyImageId r \<notin> set ks) (rows w),
                 db_log := db_log w @ [DeleteMany ks]\<rparr>))"

text \<open>
  \<open>delete\<close> on the unique column throws when no row has the key. With the unique index
  the row it removes is the only one under the key.
\<close>

definition prisma_delete :: "Env \<Rightarrow> string \<Rightarrow> World \<Rightarrow> string + World" where
  "prisma_delete env k w =
     (case prisma_throws env (Delete k) of
        Some m \<Rightarrow> Inl m
      | None \<Rightarrow>
          if has_key k (rows w)
          then Inr (w\<lparr>rows := filter (\<lambda>r. shopifyImageId r \<noteq> k) (rows w),
                      db_log := db_log w @ [Delete k]\<rparr>)
          else Inl ''Record to delete does not exist.'')"


section \<open>The transcoder\<close>

definition MAX_WIDTH :: nat where
  "MAX_WIDTH = 2048"

definition WEBP_LIMIT_KB :: nat where
  "WEBP_LIMIT_KB = 200"

text \<open>\<open>sharp(buffer).rotate()\<close>, resized when the width is known and above \<open>MAX_WIDTH\<close>.\<close>

definition sharpInstance :: "byte list \<Rightarrow> nat option \<Rightarrow> encoder \<Rightarrow> SharpCall" where
  "sharpInstance buffer w enc =
     \<lparr>input = buffer, rotate = True,
      resize_width =
        (case w of
           None \<Rightarrow> None
         | Some n \<Rightarrow> if n \<noteq> 0 \<and> MAX_WIDTH < n then Some MAX_WIDTH else None),
      encode = enc\<rparr>"

text \<open>
  \<open>optimizeImageLogic\<close>. The first component lists the encoder calls made, in order; the
  second is the result, an error when an encoder throws. The call \<open>sharp(buffer)\<close> stands
  before the \<open>try\<close>: on an empty buffer it throws at once, and that error is passed on as
  it is, before any encoder is called.
\<close>

definition optimizeImageLogic ::
  "Env \<Rightarrow> byte list \<Rightarrow> nat option \<Rightarrow> SharpCall list \<times> (error + byte list \<times> string)" where
  "optimizeImageLogic env buffer w =
     (let sizeKb = (of_nat (length buffer) :: rat) / 1024;
          webp = sharpInstance buffer w (Webp 80);
          avif = sharpInstance buffer w (Avif 60 5)
      in if buffer = [] then ([], Inl (Thrown ''Input Buffer is empty''))
         else if sizeKb < of_nat WEBP_LIMIT_KB then
           (case sharp_toBuffer env webp of
              Inl m \<Rightarrow> ([webp], Inl (ImageProcessingFailed m))
            | Inr outputBuffer \<Rightarrow> ([webp], Inr (outputBuffer, ''webp'')))
         else
           (case sharp_toBuffer env webp of
              Inl m \<Rightarrow> ([webp], Inl (ImageProcessingFailed m))
            | Inr webpBuffer \<Rightarrow>
                (case sharp_toBuffer env avif of
                   Inl m \<Rightarrow> ([webp, avif], Inl (ImageProcessingFailed m))
                 | Inr avifBuffer \<Rightarrow>
                     ([webp, avif],
                      Inr (if length avifBuffer < length webpBuffer
                           then (avifBuffer, ''avif'')
                           else (webpBuffer, ''webp''))))))"

section \<open>Commit and restore\<close>

text \<open>\<open>!session?.shop || !session?.accessToken\<close>, negated.\<close>

definition valid_session :: "Session option \<Rightarrow> bool" where
  "valid_session session =
     (case session of
        None \<Rightarrow> False
      | Some s \<Rightarrow> shop s \<noteq> [] \<and> accessToken s \<noteq> [])"

text \<open>\<open>s.split("/").pop()\<close>: what follows the last slash.\<close>

definition last_segment :: "string \<Rightarrow> string" where
  "last_segment s = rev (takeWhile (\<lambda>c. c \<noteq> CHR ''/'') (rev s))"

fun show_nat :: "nat \<Rightarrow> string" where
  "show_nat n =
     (if n < 10 then [''0123456789'' ! n]
      else show_nat (n div 10) @ [''0123456789'' ! (n mod 10)])"

declare show_nat.simps [simp del]

definition image_endpoint :: "Session \<Rightarrow> string \<Rightarrow> string \<Rightarrow> string" where
  "image_endpoint s productNumericId imageNumericId =
     ''https://'' @ shop s @ ''/admin/api/2024-10/products/'' @ productNumericId
       @ ''/images/'' @ imageNumericId @ ''.json''"

text \<open>The template \<open>gid://shopify/ProductImage/${newImageId}\<close>.\<close>

definition product_image_gid :: "nat \<Rightarrow> string" where
  "product_image_gid newImageId = ''gid://shopify/ProductImage/'' @ show_nat newImageId"

text \<open>The two \<open>PUT\<close> requests: the upload of a commit and the source reset of a restore.\<close>

definition upload_request :: "Session \<Rightarrow> Item \<Rightarrow> byte list \<Rightarrow> string \<Rightarrow> PutRequest" where
  "upload_request s item buffer format =
     (let productNumericId = last_segment (parentId item);
          imageNumericId = last_segment (item_id item)
      in \<lparr>put_url = image_endpoint s productNumericId imageNumericId,
          put_token = accessToken s,
          put_body = Attachment imageNumericId buffer (''optimized.'' @ format)\<rparr>)"

definition restore_request :: "Session \<Rightarrow> Item \<Rightarrow> string \<Rightarrow> PutRequest" where
  "restore_request s item src =
     (let productNumericId = last_segment (parentId item);
          imageNumericId = last_segment (item_id item)
      in \<lparr>put_url = image_endpoint s productNumericId imageNumericId,
          put_token = accessToken s,
          put_body = Src imageNumericId src\<rparr>)"

text \<open>
  The \<open>update\<close> block of the upsert. A field whose value is \<open>undefined\<close> is skipped by
  Prisma: when the upload's answer has no \<open>src\<close>, the row keeps its \<open>optimizedUrl\<close>.
\<close>

definition optimized_fields ::
  "string \<Rightarrow> string \<Rightarrow> string option \<Rightarrow> int \<Rightarrow> int \<Rightarrow> ImageRecord \<Rightarrow> ImageRecord" where
  "optimized_fields pid orig_url opt_url okb zkb r =
     r\<lparr>status := ''optimized'', productId := pid, originalUrl := orig_url,
       optimizedUrl := (case opt_url of None \<Rightarrow> optimizedUrl r | Some u \<Rightarrow> Some u),
       originalKb := okb, optimizedKb := zkb, savingsKb := okb - zkb\<rparr>"

definition commitImage ::
  "Env \<Rightarrow> Session option \<Rightarrow> Item \<Rightarrow> World \<Rightarrow> (error + CommitResult) \<times> World" where
  "commitImage env session item w =
     (case session of
        None \<Rightarrow> (Inl InvalidSession, w)
      | Some s \<Rightarrow>
     if \<not> valid_session session then (Inl InvalidSession, w)
     else
       case fetch_get env (url item) of
         Inl m \<Rightarrow> (Inl (Thrown m), w)
       | Inr res \<Rightarrow>
       if \<not> ok res then (Inl (DownloadFailed (http_status res)), w)
       else
         let originalBuffer = body res;
             originalKb = roundKb (length originalBuffer)
         in
         case snd (optimizeImageLogic env originalBuffer (width item)) of
           Inl e \<Rightarrow> (Inl e, w)
         | Inr (buffer, format) \<Rightarrow>
         let optimizedKb = roundKb (length buffer);
             req = upload_request s item buffer format;
             w1 = w\<lparr>http_log := http_log w @ [req]\<rparr>
         in
         case fetch_put env req of
           Inl m \<Rightarrow> (Inl (Thrown m), w1)
         | Inr uploadRes \<Rightarrow>
         if \<not> put_ok uploadRes then (Inl (UploadFailed (put_status uploadRes)), w1)
         else
           case put_image uploadRes of
             None \<Rightarrow> (Inl NoImageIdReturned, w1)
           | Some img \<Rightarrow>
           case image_id img of
             None \<Rightarrow> (Inl NoImageIdReturned, w1)
           | Some newImageId \<Rightarrow>
           if newImageId = 0 then (Inl NoImageIdReturned, w1)
           else
             let newGid = product_image_gid newImageId;
                 update = optimized_fields (parentId item) (url item) (image_src img)
                            originalKb optimizedKb
             in
             case prisma_upsert env newGid update
                    \<lparr>shopifyImageId = newGid, productId = parentId item,
                     originalUrl = url item, optimizedUrl = image_src img,
                     status = ''optimized'', savingsKb = originalKb - optimizedKb,
                     originalKb = originalKb, optimizedKb = optimizedKb\<rparr> w1 of
               Inl m \<Rightarrow> (Inl (Thrown m), w1)
             | Inr w2 \<Rightarrow>
             let w3 = (if newGid \<noteq> item_id item
                       then (case prisma_deleteMany env [item_id item] w2 of
                               Inl m \<Rightarrow> w2
                             | Inr w' \<Rightarrow> w')
                       else w2)
             in (Inr \<lparr>beforeKb = originalKb, afterKb = optimizedKb,
                       percent = percent_of originalKb optimizedKb,
                       newId = newGid\<rparr>, w3))"

definition restoreImage ::
  "Env \<Rightarrow> Session option \<Rightarrow> Item \<Rightarrow> World \<Rightarrow> (error + string) \<times> World" where
  "restoreImage env session item w =
     (case session of
        None \<Rightarrow> (Inl InvalidSession, w)
      | Some s \<Rightarrow>
     if \<not> valid_session session then (Inl InvalidSession, w)
     else
       case prisma_findUnique env (item_id item) w of
         Inl m \<Rightarrow> (Inl (Thrown m), w)
       | Inr None \<Rightarrow> (Inl OriginalNotFound, w)
       | Inr (Some record) \<Rightarrow>
       if originalUrl record = [] then (Inl OriginalNotFound, w)
       else
         let req = restore_request s item (originalUrl record);
             w1 = w\<lparr>http_log := http_log w @ [req]\<rparr>
         in
         case fetch_put env req of
           Inl m \<Rightarrow> (Inl (Thrown m), w1)
         | Inr restoreRes \<Rightarrow>
         if \<not> put_ok restoreRes then (Inl (RestoreFailed (put_status restoreRes)), w1)
         else
           case prisma_delete env (item_id item) w1 of
             Inl m \<Rightarrow> (Inl (Thrown m), w1)
           | Inr w2 \<Rightarrow> (Inr ''restored'', w2))"

section \<open>The catalog scanner\<close>

text \<open>\<open>recordMap\<close>: the rows by key, a later row replacing an earlier one.\<close>

definition recordMap_of :: "ImageRecord list \<Rightarrow> (string \<rightharpoonup> ImageRecord)" where
  "recordMap_of existingRecords =
     fold (\<lambda>r m. m(shopifyImageId r \<mapsto> r)) existingRecords Map.empty"

text \<open>The entry pushed to \<open>results\<close> for one image of one product.\<close>

definition toCandidate :: "(string \<rightharpoonup> ImageRecord) \<Rightarrow> Product \<Rightarrow> Img \<Rightarrow> Item" where
  "toCandidate recordMap p img =
     (let record = recordMap (img_id img);
          isOptimized = (case record of None \<Rightarrow> False | Some r \<Rightarrow> status r = ''optimized'')
      in \<lparr>item_id = img_id img, url = img_url img, parentId = product_id p,
          parentTitle = title p, item_type = ''Product'', width = img_width img,
          height = img_height img, alt = altText img, optimized = isOptimized,
          savedKb = (if isOptimized
                     then (case record of None \<Rightarrow> 0 | Some r \<Rightarrow> savingsKb r) else 0),
          item_originalKb = (case record of None \<Rightarrow> 0 | Some r \<Rightarrow> originalKb r),
          item_optimizedKb = (if isOptimized
                              then (case record of None \<Rightarrow> 0 | Some r \<Rightarrow> optimizedKb r)
                              else 0),
          item_percent =
            (case record of
               None \<Rightarrow> Num 0
             | Some r \<Rightarrow>
                 if isOptimized \<and> originalKb r \<noteq> 0
                 then percent_of (originalKb r) (optimizedKb r) else Num 0)\<rparr>)"

text \<open>
  The two nested \<open>for\<close> loops over one page. The accumulator is \<open>results\<close> together with
  the set \<open>currentShopImageIds\<close>.
\<close>

definition scan_product ::
  "(string \<rightharpoonup> ImageRecord) \<Rightarrow> Product \<Rightarrow> Item list \<times> string set \<Rightarrow> Item list \<times> string set" where
  "scan_product recordMap p =
     fold (\<lambda>img (results, seen).
             (results @ [toCandidate recordMap p img], insert (img_id img) seen))
       (images p)"

definition scan_page ::
  "(string \<rightharpoonup> ImageRecord) \<Rightarrow> Page \<Rightarrow> Item list \<times> string set \<Rightarrow> Item list \<times> string set" where
  "scan_page recordMap page = fold (scan_product recordMap) (nodes page)"

text \<open>
  The \<open>while (hasNextPage)\<close> loop, entered with \<open>hasNextPage = true\<close>. It ends when a
  query throws, when a page reports no next page, or when more than 2500 results have
  been collected; on a catalog that never does any of these it does not return.
\<close>

datatype paging = Threw string "Item list" "string set" | Done "Item list" "string set"

partial_function (option) page_loop ::
  "Env \<Rightarrow> (string \<rightharpoonup> ImageRecord) \<Rightarrow> string option \<Rightarrow> Item list \<times> string set \<Rightarrow> paging option" where
  "page_loop env recordMap cursor acc =
     (case graphql env cursor of
        Inl m \<Rightarrow> Some (Threw m (fst acc) (snd acc))
      | Inr page \<Rightarrow>
          if (if 2500 < length (fst (scan_page recordMap page acc)) then False
              else hasNextPage page)
          then page_loop env recordMap (endCursor page) (scan_page recordMap page acc)
          else Some (Done (fst (scan_page recordMap page acc))
                          (snd (scan_page recordMap page acc))))"

text \<open>
  \<open>scanShop\<close>. It returns the results, the error that its \<open>catch\<close> has logged, if any,
  and the world. \<open>None\<close> is a scan that does not return.
\<close>

definition scanShop ::
  "Env \<Rightarrow> string \<Rightarrow> World \<Rightarrow> (Item list \<times> string option \<times> World) option" where
  "scanShop env type w =
     (case prisma_findMany env w of
        Inl m \<Rightarrow> Some ([], Some m, w)
      | Inr existingRecords \<Rightarrow>
          (case (if type = ''all'' \<or> type = ''products''
                 then page_loop env (recordMap_of existingRecords) None ([], {})
                 else Some (Done [] {})) of
             None \<Rightarrow> None
           | Some (Threw m results seen) \<Rightarrow> Some (results, Some m, w)
           | Some (Done results currentShopImageIds) \<Rightarrow>
               let staleRecords =
                     filter (\<lambda>r. shopifyImageId r \<notin> currentShopImageIds) existingRecords
               in if 0 < length staleRecords
                  then (case prisma_deleteMany env (map shopifyImageId staleRecords) w of
                          Inl m \<Rightarrow> Some (results, Some m, w)
                        | Inr w' \<Rightarrow> Some (results, None, w'))
                  else Some (results, None, w)))"

text \<open>
  The pages that a scan is served, told apart from the loop that reads them.
  \<open>fetched env cursor k pages e\<close>: starting with the query at \<open>cursor\<close>, with \<open>k\<close> results
  collected so far, the catalog serves \<open>pages\<close>, in this order, and then either a query
  throws with message \<open>m\<close> (\<open>e = Some m\<close>) or the paging is over (\<open>e = None\<close>), because the
  last page reports no further page or because more than 2500 results are reached.
\<close>

definition page_images :: "Page \<Rightarrow> Img list" where
  "page_images page = concat (map images (nodes page))"

definition page_candidates :: "(string \<rightharpoonup> ImageRecord) \<Rightarrow> Page \<Rightarrow> Item list" where
  "page_candidates recordMap page =
     concat (map (\<lambda>p. map (toCandidate recordMap p) (images p)) (nodes page))"

inductive fetched :: "Env \<Rightarrow> string option \<Rightarrow> nat \<Rightarrow> Page list \<Rightarrow> string option \<Rightarrow> bool"
  for env :: Env where
  query_throws:
    "graphql env cursor = Inl m \<Longrightarrow> fetched env cursor k [] (Some m)"
| last_page:
    "graphql env cursor = Inr page \<Longrightarrow> \<not> hasNextPage page
     \<Longrightarrow> fetched env cursor k [page] None"
| cap_reached:
    "graphql env cursor = Inr page \<Longrightarrow> 2500 < k + length (page_images page)
     \<Longrightarrow> fetched env cursor k [page] None"
| next_page:
    "graphql env cursor = Inr page \<Longrightarrow> hasNextPage page
     \<Longrightarrow> \<not> 2500 < k + length (page_images page)
     \<Longrightarrow> fetched env (endCursor page) (k + length (page_images page)) pages e
     \<Longrightarrow> fetched env cursor k (page # pages) e"

code_pred (modes: i \<Rightarrow> i \<Rightarrow> i \<Rightarrow> o \<Rightarrow> o \<Rightarrow> bool) fetched .

text \<open>
  The pages of a whole scan: those fetched from the first query on when the scan is one
  of products, none otherwise.
\<close>

definition scanned :: "Env \<Rightarrow> string \<Rightarrow> Page list \<Rightarrow> string option \<Rightarrow> bool" where
  "scanned env type pages e =
     (if type = ''all'' \<or> type = ''products'' then fetched env None 0 pages e
      else pages = [] \<and> e = None)"

section \<open>The route's action\<close>

text \<open>
  The \<open>action\<close> of the index route for the intents that a bulk run submits. It calls the
  engine and answers with JSON; an error of the engine is caught there and answered with
  status \<open>error\<close> and the message \<open>Server Error: ...\<close>. \<open>runBulkQueue\<close> is only ever
  called with \<open>"optimize"\<close> (\<open>handleBulkOptimize\<close>) and \<open>"restore"\<close> (\<open>handleBulkRestore\<close>),
  so the intent of a run has these two values. \<open>sess\<close> is the session that
  \<open>authenticate.admin\<close> yields for the request, and \<open>item\<close> the submitted item, which the
  form always carries.
\<close>

datatype bulk_intent = Optimize | Restore






section \<open>The bulk runner\<close>

text \<open>
  \<open>runBulkQueue\<close> runs in the browser. \<open>Client\<close> holds what it shares with the rest of
  the page: the refs \<open>stopBulkRef\<close>, \<open>bulkRunIdRef\<close>, \<open>isMountedRef\<close> and
  \<open>processedIdsRef\<close>, and the React state it sets. \<open>submitted\<close> is a log of the
  submissions made: the position in the queue, the item, and the world that the server
  was in when the submission reached it.
\<close>

datatype toast = Stopping | Stopped nat nat | Complete nat nat

record Client =
  stopBulk :: bool
  bulkRunId :: nat
  isMounted :: bool
  processedIds :: "string set"
  scanResults :: "Item list"
  bulkProgress :: "nat \<times> nat"
  toastMessage :: "toast option"
  isBulkOptimizing :: bool
  isBulkRestoring :: bool
  submitted :: "(nat \<times> Item \<times> World) list"



text \<open>
  What can happen on the page while a submission is awaited (JavaScript runs the code
  between two \<open>await\<close>s without interruption): the user presses stop (\<open>handleStop\<close>),
  the component unmounts, or a new bulk run starts and executes the first lines of
  \<open>runBulkQueue\<close> (what the newer run does afterwards, and its reset of the progress
  display, are left out).
\<close>

datatype ui_event = StopPressed | Unmounted | RunSuperseded

text \<open>
  What a bulk run meets: for the submission at position \<open>n\<close> of the queue, the
  environment of the server while it handles it, whether its answer reaches the page
  within the 30 seconds, and the events on the page meanwhile; and the session that the
  route authenticates. The server handles a submission whether or not its answer arrives
  in time. The polling of the fetcher is not modelled further: a submission has the
  answer of its own request, or none.
\<close>

record BulkEnv =
  server :: "nat \<Rightarrow> Env"
  auth_session :: "Session option"
  answered :: "nat \<Rightarrow> bool"
  during :: "nat \<Rightarrow> ui_event list"

fun apply_event :: "ui_event \<Rightarrow> Client \<Rightarrow> Client" where
  "apply_event StopPressed c =
     c\<lparr>stopBulk := True, isBulkOptimizing := False, isBulkRestoring := False,
       toastMessage := Some Stopping\<rparr>"
| "apply_event Unmounted c = c\<lparr>isMounted := False, stopBulk := True\<rparr>"
| "apply_event RunSuperseded c =
     c\<lparr>bulkRunId := bulkRunId c + 1, stopBulk := False, processedIds := {}\<rparr>"












text \<open>
  The engine's side of a bulk run, told apart from the runner. \<open>engine\<close> is what the
  commit or restore of one submission does on the server: whether it fails, and the world
  it leaves. \<open>served\<close> lists, for submissions made one after the other, the world that
  each of them meets, and \<open>world_after\<close> is the world after the last. A submission counts
  among the \<open>failures\<close> when its commit or restore fails or when its answer does not
  arrive, and among the \<open>successes\<close> otherwise.
\<close>

definition engine :: "BulkEnv \<Rightarrow> bulk_intent \<Rightarrow> nat \<Rightarrow> Item \<Rightarrow> World \<Rightarrow> bool \<times> World" where
  "engine env i n item w =
     (case i of
        Optimize \<Rightarrow>
          (isl (fst (commitImage (server env n) (auth_session env) item w)),
           snd (commitImage (server env n) (auth_session env) item w))
      | Restore \<Rightarrow>
          (isl (fst (restoreImage (server env n) (auth_session env) item w)),
           snd (restoreImage (server env n) (auth_session env) item w)))"



definition failures :: "BulkEnv \<Rightarrow> bulk_intent \<Rightarrow> (nat \<times> Item \<times> World) list \<Rightarrow> nat" where
  "failures env i subs =
     length (filter (\<lambda>(n, item, w). fst (engine env i n item w) \<or> \<not> answered env n) subs)"

definition successes :: "BulkEnv \<Rightarrow> bulk_intent \<Rightarrow> (nat \<times> Item \<times> World) list \<Rightarrow> nat" where
  "successes env i subs =
     length (filter (\<lambda>(n, item, w). \<not> fst (engine env i n item w) \<and> answered env n) subs)"

section \<open>Example inputs\<close>

text \<open>
  A shop that answers every call: the download has \<open>n\<close> bytes, the WebP encoder halves
  its input, the AVIF encoder thirds it, an upload answers with image id 2, the catalog
  is empty and the database does not throw.
\<close>

definition ex_env :: "nat \<Rightarrow> Env" where
  "ex_env n =
     \<lparr>fetch_get = (\<lambda>u. Inr \<lparr>ok = True, http_status = 200, body = replicate n 0\<rparr>),
      sharp_toBuffer =
        (\<lambda>c. case encode c of
                Webp q \<Rightarrow> Inr (replicate (length (input c) div 2) 0)
              | Avif q s \<Rightarrow> Inr (replicate (length (input c) div 3) 0)),
      fetch_put =
        (\<lambda>r. Inr \<lparr>put_ok = True, put_status = 200,
                   put_image = Some \<lparr>image_id = Some 2,
                                      image_src = Some ''https://cdn.example/b.webp''\<rparr>\<rparr>),
      graphql = (\<lambda>c. Inr \<lparr>nodes = [], hasNextPage = False, endCursor = None\<rparr>),
      prisma_throws = (\<lambda>c. None)\<rparr>"

definition ex_session :: "Session option" where
  "ex_session = Some \<lparr>shop = ''shop.example'', accessToken = ''token''\<rparr>"

definition ex_item :: Item where
  "ex_item =
     \<lparr>item_id = ''gid://shopify/ProductImage/1'', url = ''https://cdn.example/a.jpg'',
      parentId = ''gid://shopify/Product/7'', parentTitle = ''Shirt'',
      item_type = ''Product'', width = Some 100, height = Some 100, alt = None,
      optimized = False, savedKb = 0, item_originalKb = 0, item_optimizedKb = 0,
      item_percent = Num 0\<rparr>"

definition ex_record :: "string \<Rightarrow> ImageRecord" where
  "ex_record k =
     \<lparr>shopifyImageId = k, productId = ''gid://shopify/Product/7'',
      originalUrl = ''https://cdn.example/a.jpg'',
      optimizedUrl = Some ''https://cdn.example/old.webp'', status = ''optimized'',
      savingsKb = 4, originalKb = 10, optimizedKb = 6\<rparr>"

definition ex_world :: "ImageRecord list \<Rightarrow> World" where
  "ex_world rs = \<lparr>rows = rs, db_log = [], http_log = []\<rparr>"

text \<open>
  A catalog of three pages: the first has one product with the images 1 and 2, the
  second one product with image 3, the third one product with image 4. In
  \<open>ex_catalog_broken\<close> the query for the third page throws.
\<close>

definition ex_img :: "string \<Rightarrow> Img" where
  "ex_img k = \<lparr>img_id = k, img_url = ''https://cdn.example/i.jpg'', img_width = Some 100,
              img_height = Some 100, altText = None\<rparr>"

definition ex_page1 :: Page where
  "ex_page1 =
     \<lparr>nodes = [\<lparr>product_id = ''gid://shopify/Product/7'', title = ''Shirt'',
                images = [ex_img ''gid://shopify/ProductImage/1'',
                          ex_img ''gid://shopify/ProductImage/2'']\<rparr>],
      hasNextPage = True, endCursor = Some ''c1''\<rparr>"

definition ex_page2 :: Page where
  "ex_page2 =
     \<lparr>nodes = [\<lparr>product_id = ''gid://shopify/Product/8'', title = ''Hat'',
                images = [ex_img ''gid://shopify/ProductImage/3'']\<rparr>],
      hasNextPage = True, endCursor = Some ''c2''\<rparr>"

definition ex_page3 :: Page where
  "ex_page3 =
     \<lparr>nodes = [\<lparr>product_id = ''gid://shopify/Product/9'', title = ''Scarf'',
                images = [ex_img ''gid://shopify/ProductImage/4'']\<rparr>],
      hasNextPage = False, endCursor = None\<rparr>"

definition ex_catalog :: Env where
  "ex_catalog =
     (ex_env 0)\<lparr>graphql :=
        (\<lambda>c. if c = None then Inr ex_page1
             else if c = Some ''c1'' then Inr ex_page2 else Inr ex_page3)\<rparr>"

definition ex_catalog_broken :: Env where
  "ex_catalog_broken =
     (ex_env 0)\<lparr>graphql :=
        (\<lambda>c. if c = None then Inr ex_page1
             else if c = Some ''c1'' then Inr ex_page2 else Inl ''fetch failed'')\<rparr>"

text \<open>The same catalog with a database whose \<open>deleteMany\<close> throws.\<close>

definition ex_catalog_no_delete :: Env where
  "ex_catalog_no_delete =
     ex_catalog\<lparr>prisma_throws :=
       (\<lambda>c. case c of DeleteMany ks \<Rightarrow> Some ''connection lost'' | _ \<Rightarrow> None)\<rparr>"




section \<open>Auxiliary facts\<close>

text \<open>Rounding to whole kilobytes, in integer arithmetic.\<close>

lemma roundKb_eq: "roundKb n = (int n + 512) div 1024"
proof -
  have "(of_nat n :: rat) / 1024 + 1 / 2 = of_int (int n + 512) / of_int 1024"
    by (simp add: field_simps)
  then have "\<lfloor>(of_nat n :: rat) / 1024 + 1 / 2\<rfloor> = \<lfloor>(of_int (int n + 512) :: rat) / of_int 1024\<rfloor>"
    by (simp only:)
  also have "\<dots> = (int n + 512) div 1024"
    by (rule floor_divide_of_int_eq)
  finally show ?thesis
    by (simp add: roundKb_def round_half_up_def)
qed

lemmas run_defs =
  commitImage_def restoreImage_def optimizeImageLogic_def sharpInstance_def Let_def
  valid_session_def WEBP_LIMIT_KB_def MAX_WIDTH_def last_segment_def image_endpoint_def
  prisma_upsert_def prisma_deleteMany_def prisma_delete_def prisma_findUnique_def
  prisma_findMany_def has_key_def optimized_fields_def roundKb_eq show_nat.simps
  product_image_gid_def upload_request_def restore_request_def

lemmas ex_defs = ex_env_def ex_session_def ex_item_def ex_world_def ex_record_def

text \<open>What a commit that returns a result has gone through.\<close>

lemma commitImage_success:
  assumes "commitImage env session item w = (Inr res, w')"
  obtains s dl buffer fmt up img n w2 where
    "session = Some s" "valid_session session"
    "fetch_get env (url item) = Inr dl" "ok dl"
    "snd (optimizeImageLogic env (body dl) (width item)) = Inr (buffer, fmt)"
    "fetch_put env
       (upload_request s item buffer fmt) = Inr up"
    "put_ok up" "put_image up = Some img" "image_id img = Some n" "n \<noteq> 0"
    "prisma_upsert env (product_image_gid n)
       (optimized_fields (parentId item) (url item) (image_src img)
          (roundKb (length (body dl))) (roundKb (length buffer)))
       \<lparr>shopifyImageId = product_image_gid n,
        productId = parentId item, originalUrl = url item, optimizedUrl = image_src img,
        status = ''optimized'',
        savingsKb = roundKb (length (body dl)) - roundKb (length buffer),
        originalKb = roundKb (length (body dl)), optimizedKb = roundKb (length buffer)\<rparr>
       (w\<lparr>http_log := http_log w @
          [upload_request s item buffer fmt]\<rparr>)
       = Inr w2"
    "res = \<lparr>beforeKb = roundKb (length (body dl)), afterKb = roundKb (length buffer),
            percent = percent_of (roundKb (length (body dl))) (roundKb (length buffer)),
            newId = product_image_gid n\<rparr>"
    "w' = (if product_image_gid n \<noteq> item_id item
           then (case prisma_deleteMany env [item_id item] w2 of Inl m \<Rightarrow> w2 | Inr w3 \<Rightarrow> w3)
           else w2)"
  using assms
  unfolding commitImage_def Let_def
  by (auto split: option.splits sum.splits if_splits prod.splits)

section \<open>Commit\<close>

text \<open>
  Claim C9. A commit that fails leaves the table as it was and has written nothing to
  the database; this covers the invalid session, the failed download, the transcoder
  error, the rejected upload and the upload answer without an image id. And whenever a
  commit has changed the table or written to the database, its upload was answered
  with success and a non-zero image id: the first write comes only after that.
\<close>

theorem commitImage_failure_leaves_store:
  assumes "commitImage env session item w = (r, w')"
  shows "(isl r \<longrightarrow> rows w' = rows w \<and> db_log w' = db_log w) \<and>
         (rows w' \<noteq> rows w \<or> db_log w' \<noteq> db_log w \<longrightarrow>
            (\<exists>req up img n. http_log w' = http_log w @ [req] \<and> fetch_put env req = Inr up \<and>
               put_ok up \<and> put_image up = Some img \<and> image_id img = Some n \<and> n \<noteq> 0))"
proof (cases r)
  case (Inl e)
  with assms have "rows w' = rows w \<and> db_log w' = db_log w"
    unfolding commitImage_def Let_def
    by (auto split: option.splits sum.splits if_splits prod.splits)
  with Inl show ?thesis by simp
next
  case (Inr res)
  with assms have c: "commitImage env session item w = (Inr res, w')" by simp
  from c obtain req up img n where
    "http_log w' = http_log w @ [req]" "fetch_put env req = Inr up" "put_ok up"
    "put_image up = Some img" "image_id img = Some n" "n \<noteq> 0"
    by (rule commitImage_success)
       (auto simp: prisma_upsert_def prisma_deleteMany_def split: option.splits if_splits)
  with Inr show ?thesis by auto
qed

theorem commitImage_failure_leaves_store_witness:
  "isl (fst (commitImage ((ex_env 100)\<lparr>fetch_get := (\<lambda>u. Inr \<lparr>ok = False, http_status = 404, body = []\<rparr>)\<rparr>)
               ex_session ex_item (ex_world [ex_record ''gid://shopify/ProductImage/1''])))
   \<and> rows (snd (commitImage ((ex_env 100)\<lparr>fetch_get := (\<lambda>u. Inr \<lparr>ok = False, http_status = 404, body = []\<rparr>)\<rparr>)
               ex_session ex_item (ex_world [ex_record ''gid://shopify/ProductImage/1''])))
       = [ex_record ''gid://shopify/ProductImage/1'']"
proof -
  let ?c = "commitImage ((ex_env 100)\<lparr>fetch_get := (\<lambda>u. Inr \<lparr>ok = False, http_status = 404, body = []\<rparr>)\<rparr>)
               ex_session ex_item (ex_world [ex_record ''gid://shopify/ProductImage/1''])"
  have run: "?c = (Inl (DownloadFailed 404), ex_world [ex_record ''gid://shopify/ProductImage/1''])"
    by (simp add: run_defs ex_defs)
  have failed: "isl (Inl (DownloadFailed 404) :: error + CommitResult)" by simp
  from commitImage_failure_leaves_store [OF run]
  have "isl (Inl (DownloadFailed 404) :: error + CommitResult) \<longrightarrow>
        rows (ex_world [ex_record ''gid://shopify/ProductImage/1''])
          = rows (ex_world [ex_record ''gid://shopify/ProductImage/1'']) \<and>
        db_log (ex_world [ex_record ''gid://shopify/ProductImage/1''])
          = db_log (ex_world [ex_record ''gid://shopify/ProductImage/1''])"
    by (rule conjunct1)
  with failed run show ?thesis by (simp add: ex_world_def)
qed

text \<open>Keys after an upsert.\<close>

lemma map_update_keys:
  assumes "\<And>r. shopifyImageId (upd r) = shopifyImageId r"
  shows "map shopifyImageId (map (\<lambda>r. if shopifyImageId r = k then upd r else r) rs)
           = map shopifyImageId rs"
  using assms by (induction rs) auto

lemma upsert_rows_key:
  assumes "prisma_upsert env k upd cre w = Inr w2"
    and "shopifyImageId cre = k" and "\<And>r. shopifyImageId (upd r) = shopifyImageId r"
  shows "has_key k (rows w2)"
proof (cases "has_key k (rows w)")
  case True
  with assms(1) have "rows w2 = map (\<lambda>r. if shopifyImageId r = k then upd r else r) (rows w)"
    by (auto simp: prisma_upsert_def split: option.splits)
  with True assms(3) show ?thesis
    by (simp add: has_key_def map_update_keys del: map_map)
next
  case False
  with assms(1) have "rows w2 = rows w @ [cre]"
    by (auto simp: prisma_upsert_def split: option.splits)
  with assms(2) show ?thesis by (simp add: has_key_def)
qed

lemma upsert_rows_at_key:
  assumes "prisma_upsert env k upd cre w = Inr w2" and "r \<in> set (rows w2)"
    and "shopifyImageId r = k" and "shopifyImageId cre = k"
    and "\<And>r. shopifyImageId (upd r) = shopifyImageId r"
  shows "r = cre \<or> (\<exists>r0 \<in> set (rows w). r = upd r0)"
  using assms
  by (auto simp: prisma_upsert_def has_key_def split: option.splits if_splits)

lemma optimized_fields_key [simp]:
  "shopifyImageId (optimized_fields p u ou a b r) = shopifyImageId r"
  by (simp add: optimized_fields_def)

text \<open>
  Claim C1, as amended. After a commit that returned a result, the identifier it returns
  is the one built from the image id that the upload answered; the table has a row under
  this new identifier, and every row under it has status \<open>optimized\<close>, the rounded size
  of the download as \<open>originalKb\<close>, the rounded size of the transcoded bytes as
  \<open>optimizedKb\<close>, and their difference as \<open>savingsKb\<close>. When the new identifier differs
  from the item's and the clean-up \<open>deleteMany\<close> does not throw, no row is left under the
  item's old identifier. (A clean-up that throws is caught and logged, and the commit
  still returns its result.)
\<close>

theorem commitImage_record_under_new_id:
  assumes "commitImage env session item w = (Inr res, w')"
    and "session = Some s"
    and "fetch_get env (url item) = Inr dl"
    and "snd (optimizeImageLogic env (body dl) (width item)) = Inr (buf, fmt)"
    and "fetch_put env (upload_request s item buf fmt) = Inr up"
    and "put_image up = Some img" and "image_id img = Some n"
  shows "newId res = product_image_gid n \<and>
         has_key (product_image_gid n) (rows w') \<and>
         (\<forall>r \<in> set (rows w'). shopifyImageId r = product_image_gid n \<longrightarrow>
            status r = ''optimized'' \<and>
            originalKb r = roundKb (length (body dl)) \<and>
            optimizedKb r = roundKb (length buf) \<and>
            savingsKb r = originalKb r - optimizedKb r) \<and>
         (product_image_gid n \<noteq> item_id item \<and>
          prisma_throws env (DeleteMany [item_id item]) = None
            \<longrightarrow> \<not> has_key (item_id item) (rows w'))"
proof -
  from assms(1) obtain s' dl' buffer fmt' up' img' n' w2 where
    s': "session = Some s'" and "valid_session session"
    and dl': "fetch_get env (url item) = Inr dl'" and "ok dl'"
    and tr: "snd (optimizeImageLogic env (body dl') (width item)) = Inr (buffer, fmt')"
    and put: "fetch_put env (upload_request s' item buffer fmt') = Inr up'"
    and "put_ok up'" and img': "put_image up' = Some img'" and n': "image_id img' = Some n'"
    and "n' \<noteq> 0"
    and up: "prisma_upsert env (product_image_gid n')
       (optimized_fields (parentId item) (url item) (image_src img')
          (roundKb (length (body dl'))) (roundKb (length buffer)))
       \<lparr>shopifyImageId = product_image_gid n',
        productId = parentId item, originalUrl = url item, optimizedUrl = image_src img',
        status = ''optimized'',
        savingsKb = roundKb (length (body dl')) - roundKb (length buffer),
        originalKb = roundKb (length (body dl')), optimizedKb = roundKb (length buffer)\<rparr>
       (w\<lparr>http_log := http_log w @ [upload_request s' item buffer fmt']\<rparr>)
       = Inr w2"
    and res: "res = \<lparr>beforeKb = roundKb (length (body dl')), afterKb = roundKb (length buffer),
            percent = percent_of (roundKb (length (body dl'))) (roundKb (length buffer)),
            newId = product_image_gid n'\<rparr>"
    and w': "w' = (if product_image_gid n' \<noteq> item_id item
           then (case prisma_deleteMany env [item_id item] w2 of Inl m \<Rightarrow> w2 | Inr w3 \<Rightarrow> w3)
           else w2)"
    by (rule commitImage_success)
  from s' dl' tr assms(2-4) have same: "s' = s" "dl' = dl" "buffer = buf" "fmt' = fmt"
    by simp_all
  with put img' n' assms(5-7) have n: "n' = n" by simp
  have g: "newId res = product_image_gid n" using res n by simp
  have key2: "has_key (product_image_gid n) (rows w2)"
    unfolding n [symmetric] by (rule upsert_rows_key [OF up]) simp_all
  have props2: "status r = ''optimized'' \<and> originalKb r = roundKb (length (body dl)) \<and>
      optimizedKb r = roundKb (length buf) \<and> savingsKb r = originalKb r - optimizedKb r"
    if "r \<in> set (rows w2)" "shopifyImageId r = product_image_gid n" for r
    using upsert_rows_at_key [OF up that(1)] that(2) same n
    by (auto simp: optimized_fields_def)
  have sub: "set (rows w') \<subseteq> set (rows w2)"
    using w' by (auto simp: prisma_deleteMany_def split: option.splits sum.splits if_splits)
  have keep: "has_key (product_image_gid n) (rows w')"
    using key2 w' n
    by (auto simp: prisma_deleteMany_def has_key_def split: option.splits sum.splits if_splits)
  have gone: "\<not> has_key (item_id item) (rows w')"
    if "product_image_gid n \<noteq> item_id item" "prisma_throws env (DeleteMany [item_id item]) = None"
    using that w' n by (auto simp: prisma_deleteMany_def has_key_def)
  from g keep props2 sub gone show ?thesis by auto
qed

text \<open>
  An instance: a download of 2000 bytes for an item whose old identifier already has a
  row; the upload answers with image id 2.
\<close>

theorem commitImage_record_under_new_id_witness:
  "fst (commitImage (ex_env 2000) ex_session ex_item (ex_world [ex_record ''gid://shopify/ProductImage/1'']))
     = Inr \<lparr>beforeKb = 2, afterKb = 1, percent = percent_of 2 1, newId = ''gid://shopify/ProductImage/2''\<rparr>
   \<and> fetch_put (ex_env 2000)
         (upload_request \<lparr>shop = ''shop.example'', accessToken = ''token''\<rparr> ex_item
            (replicate 1000 0) ''webp'')
       = Inr \<lparr>put_ok = True, put_status = 200,
               put_image = Some \<lparr>image_id = Some 2,
                                  image_src = Some ''https://cdn.example/b.webp''\<rparr>\<rparr>
   \<and> product_image_gid 2 = ''gid://shopify/ProductImage/2''
   \<and> has_key ''gid://shopify/ProductImage/2''
         (rows (snd (commitImage (ex_env 2000) ex_session ex_item (ex_world [ex_record ''gid://shopify/ProductImage/1'']))))
   \<and> \<not> has_key ''gid://shopify/ProductImage/1''
         (rows (snd (commitImage (ex_env 2000) ex_session ex_item (ex_world [ex_record ''gid://shopify/ProductImage/1'']))))"
proof -
  let ?w = "ex_world [ex_record ''gid://shopify/ProductImage/1'']"
  let ?res = "\<lparr>beforeKb = 2, afterKb = 1, percent = percent_of 2 1, newId = ''gid://shopify/ProductImage/2''\<rparr>"
  let ?c = "commitImage (ex_env 2000) ex_session ex_item ?w"
  let ?s = "\<lparr>shop = ''shop.example'', accessToken = ''token''\<rparr>"
  let ?img = "\<lparr>image_id = Some 2, image_src = Some ''https://cdn.example/b.webp''\<rparr>"
  let ?up = "\<lparr>put_ok = True, put_status = 200, put_image = Some ?img\<rparr>"
  have run: "?c = (Inr ?res, snd ?c)"
    by (simp add: run_defs ex_defs)
  have s: "ex_session = Some ?s" by (simp add: ex_session_def)
  have dl: "fetch_get (ex_env 2000) (url ex_item) = Inr \<lparr>ok = True, http_status = 200, body = replicate 2000 0\<rparr>"
    by (simp add: ex_defs)
  have tr: "snd (optimizeImageLogic (ex_env 2000) (body \<lparr>ok = True, http_status = 200, body = replicate 2000 0\<rparr>) (width ex_item))
           = Inr (replicate 1000 0, ''webp'')"
    by (simp add: run_defs ex_defs)
  have put: "fetch_put (ex_env 2000) (upload_request ?s ex_item (replicate 1000 0) ''webp'') = Inr ?up"
    by (simp add: ex_env_def)
  have img: "put_image ?up = Some ?img" "image_id ?img = Some 2" by simp_all
  have gid: "product_image_gid 2 = ''gid://shopify/ProductImage/2''"
    by (simp add: product_image_gid_def show_nat.simps)
  have differs: "product_image_gid 2 \<noteq> item_id ex_item \<and>
      prisma_throws (ex_env 2000) (DeleteMany [item_id ex_item]) = None"
    by (simp add: gid ex_defs)
  note t = commitImage_record_under_new_id [OF run s dl tr put img]
  from t have a: "has_key (product_image_gid 2) (rows (snd ?c))"
    by (rule conjunct2 [THEN conjunct1])
  from t have "product_image_gid 2 \<noteq> item_id ex_item \<and>
      prisma_throws (ex_env 2000) (DeleteMany [item_id ex_item]) = None
      \<longrightarrow> \<not> has_key (item_id ex_item) (rows (snd ?c))"
    by (rule conjunct2 [THEN conjunct2, THEN conjunct2])
  with differs have b: "\<not> has_key (item_id ex_item) (rows (snd ?c))" by (rule rev_mp)
  from run have r: "fst ?c = Inr ?res" by (metis fst_conv)
  from a have a': "has_key ''gid://shopify/ProductImage/2'' (rows (snd ?c))" by (simp add: gid)
  from b have b': "\<not> has_key ''gid://shopify/ProductImage/1'' (rows (snd ?c))" by (simp add: ex_item_def)
  from r put gid a' b' show ?thesis by (intro conjI)
qed

text \<open>
  Claim C1 as stated fails when the clean-up throws: the commit returns its result and
  the row under the old identifier is still in the table.
\<close>

theorem commitImage_old_record_counterexample:
  "\<not> isl (fst (commitImage
       ((ex_env 2000)\<lparr>prisma_throws :=
           (\<lambda>c. case c of DeleteMany ks \<Rightarrow> Some ''connection lost'' | _ \<Rightarrow> None)\<rparr>)
       ex_session ex_item (ex_world [ex_record ''gid://shopify/ProductImage/1''])))
   \<and> newId (projr (fst (commitImage
       ((ex_env 2000)\<lparr>prisma_throws :=
           (\<lambda>c. case c of DeleteMany ks \<Rightarrow> Some ''connection lost'' | _ \<Rightarrow> None)\<rparr>)
       ex_session ex_item (ex_world [ex_record ''gid://shopify/ProductImage/1'']))))
       = ''gid://shopify/ProductImage/2''
   \<and> item_id ex_item = ''gid://shopify/ProductImage/1''
   \<and> has_key ''gid://shopify/ProductImage/1'' (rows (snd (commitImage
       ((ex_env 2000)\<lparr>prisma_throws :=
           (\<lambda>c. case c of DeleteMany ks \<Rightarrow> Some ''connection lost'' | _ \<Rightarrow> None)\<rparr>)
       ex_session ex_item (ex_world [ex_record ''gid://shopify/ProductImage/1'']))))"
  by (simp add: run_defs ex_defs)

text \<open>The percentage that a commit returns is computed without a test for zero.\<close>

lemma commitImage_percent:
  assumes "commitImage env session item w = (Inr res, w')"
  shows "percent res = percent_of (beforeKb res) (afterKb res)"
  using assms by (rule commitImage_success) simp

lemma percent_of_zero:
  "percent_of 0 b = (if b = 0 then NaN else if b < 0 then PosInf else NegInf)"
  by (simp add: percent_of_def)

text \<open>
  Claim C2. The claim asks for percent 0 when the rounded original size is 0. A download
  of 100 bytes rounds to 0 KB, the commit returns a result, and its percent is \<open>NaN\<close>:
  \<open>commitImage\<close> divides by \<open>originalKb\<close> with no guard, unlike \<open>scanShop\<close> and the
  bulk runner.
\<close>

theorem commitImage_percent_zero_original:
  "beforeKb (projr (fst (commitImage (ex_env 100) ex_session ex_item (ex_world [])))) = 0
   \<and> percent (projr (fst (commitImage (ex_env 100) ex_session ex_item (ex_world [])))) = NaN
   \<and> \<not> isl (fst (commitImage (ex_env 100) ex_session ex_item (ex_world [])))"
  by (simp add: run_defs ex_defs percent_of_def)

section \<open>Transcoder\<close>

text \<open>
  Claim C3. Whenever the transcoder returns an output: for an input whose size in KB is
  below \<open>WEBP_LIMIT_KB\<close> exactly one encoder call has been made, the WebP one, and its
  output is returned with format \<open>webp\<close>; for an input at or above the limit exactly
  two calls have been made, WebP then AVIF, and the shorter output is returned, the WebP
  one when both have the same length.
\<close>

theorem optimizeImageLogic_threshold:
  assumes "optimizeImageLogic env buffer w = (calls, Inr (out, fmt))"
  shows "((of_nat (length buffer) :: rat) / 1024 < of_nat WEBP_LIMIT_KB \<longrightarrow>
            calls = [sharpInstance buffer w (Webp 80)] \<and>
            sharp_toBuffer env (sharpInstance buffer w (Webp 80)) = Inr out \<and> fmt = ''webp'') \<and>
         (\<not> (of_nat (length buffer) :: rat) / 1024 < of_nat WEBP_LIMIT_KB \<longrightarrow>
            calls = [sharpInstance buffer w (Webp 80), sharpInstance buffer w (Avif 60 5)] \<and>
            (\<exists>webpBuffer avifBuffer.
               sharp_toBuffer env (sharpInstance buffer w (Webp 80)) = Inr webpBuffer \<and>
               sharp_toBuffer env (sharpInstance buffer w (Avif 60 5)) = Inr avifBuffer \<and>
               (out, fmt) = (if length avifBuffer < length webpBuffer
                             then (avifBuffer, ''avif'') else (webpBuffer, ''webp''))))"
  using assms
  by (auto simp: optimizeImageLogic_def Let_def split: sum.splits if_splits)

text \<open>An input of 1000 bytes and one of exactly 200 KB, where the AVIF output is shorter.\<close>

theorem optimizeImageLogic_threshold_witness:
  "(of_nat (length (replicate 1000 (0 :: byte))) :: rat) / 1024 < of_nat WEBP_LIMIT_KB
   \<and> optimizeImageLogic (ex_env 0) (replicate 1000 0) (Some 100)
       = ([sharpInstance (replicate 1000 0) (Some 100) (Webp 80)], Inr (replicate 500 0, ''webp''))
   \<and> \<not> (of_nat (length (replicate 204800 (0 :: byte))) :: rat) / 1024 < of_nat WEBP_LIMIT_KB
   \<and> optimizeImageLogic (ex_env 0) (replicate 204800 0) (Some 100)
       = ([sharpInstance (replicate 204800 0) (Some 100) (Webp 80),
           sharpInstance (replicate 204800 0) (Some 100) (Avif 60 5)],
          Inr (replicate 68266 0, ''avif''))"
proof -
  let ?small = "replicate 1000 (0 :: byte)" and ?large = "replicate 204800 (0 :: byte)"
  have small: "(of_nat (length ?small) :: rat) / 1024 < of_nat WEBP_LIMIT_KB"
    by (simp add: WEBP_LIMIT_KB_def)
  have large: "\<not> (of_nat (length ?large) :: rat) / 1024 < of_nat WEBP_LIMIT_KB"
    by (simp add: WEBP_LIMIT_KB_def)
  have run1: "optimizeImageLogic (ex_env 0) ?small (Some 100)
      = (fst (optimizeImageLogic (ex_env 0) ?small (Some 100)), Inr (replicate 500 0, ''webp''))"
    by (simp add: run_defs ex_defs)
  have run2: "optimizeImageLogic (ex_env 0) ?large (Some 100)
      = (fst (optimizeImageLogic (ex_env 0) ?large (Some 100)), Inr (replicate 68266 0, ''avif''))"
    by (simp add: run_defs ex_defs)
  from optimizeImageLogic_threshold [OF run1] small
  have c1: "fst (optimizeImageLogic (ex_env 0) ?small (Some 100))
      = [sharpInstance ?small (Some 100) (Webp 80)]"
    by blast
  from optimizeImageLogic_threshold [OF run2] large
  have c2: "fst (optimizeImageLogic (ex_env 0) ?large (Some 100))
      = [sharpInstance ?large (Some 100) (Webp 80), sharpInstance ?large (Some 100) (Avif 60 5)]"
    by blast
  from run1 c1 have r1: "optimizeImageLogic (ex_env 0) ?small (Some 100)
       = ([sharpInstance ?small (Some 100) (Webp 80)], Inr (replicate 500 0, ''webp''))"
    by simp
  from run2 c2 have r2: "optimizeImageLogic (ex_env 0) ?large (Some 100)
       = ([sharpInstance ?large (Some 100) (Webp 80), sharpInstance ?large (Some 100) (Avif 60 5)],
          Inr (replicate 68266 0, ''avif''))"
    by simp
  from small r1 large r2 show ?thesis by (intro conjI)
qed

section \<open>Restore\<close>

text \<open>The rows after a restore that succeeded, and after a commit that succeeded.\<close>

lemma restoreImage_success:
  assumes "restoreImage env session item w = (Inr st, w')"
  shows "prisma_delete env (item_id item)
           (w\<lparr>http_log := http_log w' \<rparr>) = Inr w'"
  using assms
  unfolding restoreImage_def Let_def
  by (auto simp: prisma_delete_def split: option.splits sum.splits if_splits)

lemma restoreImage_success_rows:
  assumes "restoreImage env session item w = (Inr st, w')"
  shows "rows w' = filter (\<lambda>r. shopifyImageId r \<noteq> item_id item) (rows w)"
  using assms
  unfolding restoreImage_def Let_def
  by (auto simp: prisma_delete_def split: option.splits sum.splits if_splits)

lemma filter_absent_key:
  assumes "\<not> has_key k rs"
  shows "filter (\<lambda>r. shopifyImageId r \<noteq> k) rs = rs"
  using assms by (induction rs) (auto simp: has_key_def)

lemma commitImage_success_rows:
  assumes "commitImage env session item w = (Inr res, w')"
  shows "\<exists>rs. (if has_key (newId res) (rows w)
                then length rs = length (rows w) \<and> map shopifyImageId rs = map shopifyImageId (rows w)
                else \<exists>r. rs = rows w @ [r] \<and> shopifyImageId r = newId res) \<and>
              (rows w' = rs \<or>
               newId res \<noteq> item_id item \<and> prisma_throws env (DeleteMany [item_id item]) = None \<and>
               rows w' = filter (\<lambda>r. shopifyImageId r \<noteq> item_id item) rs)"
  using assms
proof (rule commitImage_success)
  fix s dl buffer fmt up img n w2
  assume up: "prisma_upsert env (product_image_gid n)
       (optimized_fields (parentId item) (url item) (image_src img)
          (roundKb (length (body dl))) (roundKb (length buffer)))
       \<lparr>shopifyImageId = (product_image_gid n),
        productId = parentId item, originalUrl = url item, optimizedUrl = image_src img,
        status = ''optimized'',
        savingsKb = roundKb (length (body dl)) - roundKb (length buffer),
        originalKb = roundKb (length (body dl)), optimizedKb = roundKb (length buffer)\<rparr>
       (w\<lparr>http_log := http_log w @
          [upload_request s item buffer fmt]\<rparr>)
       = Inr w2"
    and res: "res = \<lparr>beforeKb = roundKb (length (body dl)), afterKb = roundKb (length buffer),
            percent = percent_of (roundKb (length (body dl))) (roundKb (length buffer)),
            newId = (product_image_gid n)\<rparr>"
    and w': "w' = (if (product_image_gid n) \<noteq> item_id item
           then (case prisma_deleteMany env [item_id item] w2 of Inl m \<Rightarrow> w2 | Inr w3 \<Rightarrow> w3)
           else w2)"
  have g: "newId res = (product_image_gid n)" using res by simp
  have 1: "if has_key (product_image_gid n) (rows w)
           then length (rows w2) = length (rows w) \<and> map shopifyImageId (rows w2) = map shopifyImageId (rows w)
           else \<exists>r. rows w2 = rows w @ [r] \<and> shopifyImageId r = (product_image_gid n)"
    using up by (auto simp: prisma_upsert_def map_update_keys simp del: map_map split: option.splits)
  have 2: "rows w' = rows w2 \<or>
           (product_image_gid n) \<noteq> item_id item \<and> prisma_throws env (DeleteMany [item_id item]) = None \<and>
           rows w' = filter (\<lambda>r. shopifyImageId r \<noteq> item_id item) (rows w2)"
    using w' by (auto simp: prisma_deleteMany_def split: option.splits)
  from 1 2 g show ?thesis by (intro exI [of _ "rows w2"]) simp
qed

text \<open>
  Claim C5. A commit that succeeds, followed by a restore that succeeds on the item under
  the identifier the commit returned, leaves no row under that identifier. No row is
  left under the item's earlier identifier either when there was none before the commit
  (the item was pending) or when the commit's clean-up did not throw. When before the
  commit the table had no row under either identifier, the round trip gives back exactly
  the rows from before the commit. The two calls may meet different environments.
\<close>

theorem commit_then_restore:
  assumes c: "commitImage env session item w = (Inr res, w1)"
    and r: "restoreImage env' session' (item\<lparr>item_id := newId res\<rparr>) w1 = (Inr st, w2)"
  shows "\<not> has_key (newId res) (rows w2) \<and>
         (\<not> has_key (item_id item) (rows w) \<or> prisma_throws env (DeleteMany [item_id item]) = None
            \<longrightarrow> \<not> has_key (item_id item) (rows w2)) \<and>
         (\<not> has_key (item_id item) (rows w) \<and> \<not> has_key (newId res) (rows w)
            \<longrightarrow> rows w2 = rows w)"
proof -
  from r have w2: "rows w2 = filter (\<lambda>r. shopifyImageId r \<noteq> newId res) (rows w1)"
    by (auto dest: restoreImage_success_rows)
  have a: "\<not> has_key (newId res) (rows w2)"
    by (auto simp: w2 has_key_def)
  from c obtain rs where
    rs: "if has_key (newId res) (rows w)
         then length rs = length (rows w) \<and> map shopifyImageId rs = map shopifyImageId (rows w)
         else \<exists>r. rs = rows w @ [r] \<and> shopifyImageId r = newId res"
    and w1: "rows w1 = rs \<or>
             newId res \<noteq> item_id item \<and> prisma_throws env (DeleteMany [item_id item]) = None \<and>
             rows w1 = filter (\<lambda>r. shopifyImageId r \<noteq> item_id item) rs"
    using commitImage_success_rows by blast
  have keys_rs: "set (map shopifyImageId rs) \<subseteq> insert (newId res) (set (map shopifyImageId (rows w)))"
  proof (cases "has_key (newId res) (rows w)")
    case True
    with rs have "map shopifyImageId rs = map shopifyImageId (rows w)" by simp
    then have "set (map shopifyImageId rs) = set (map shopifyImageId (rows w))"
      by (simp only:)
    then show ?thesis by blast
  next
    case False
    with rs show ?thesis by auto
  qed
  have keys_w1: "set (map shopifyImageId (rows w1)) \<subseteq> set (map shopifyImageId rs)"
    using w1 by auto
  have b1: "\<not> has_key (item_id item) (rows w2)" if "\<not> has_key (item_id item) (rows w)"
  proof
    assume "has_key (item_id item) (rows w2)"
    then have "item_id item \<noteq> newId res" "item_id item \<in> set (map shopifyImageId (rows w1))"
      by (auto simp: w2 has_key_def)
    with keys_w1 keys_rs that show False by (auto simp: has_key_def)
  qed
  have b2: "\<not> has_key (item_id item) (rows w2)" if d: "prisma_throws env (DeleteMany [item_id item]) = None"
  proof (cases "newId res = item_id item")
    case True
    with a show ?thesis by simp
  next
    case False
    from c have "\<not> has_key (item_id item) (rows w1)"
      using False d
      by - (erule commitImage_success,
            auto simp: prisma_deleteMany_def has_key_def split: option.splits if_splits)
    then show ?thesis by (auto simp: w2 has_key_def)
  qed
  have e: "rows w2 = rows w"
    if n1: "\<not> has_key (item_id item) (rows w)" and n2: "\<not> has_key (newId res) (rows w)"
  proof -
    from rs n2 obtain r0 where rs': "rs = rows w @ [r0]" "shopifyImageId r0 = newId res" by auto
    have "filter (\<lambda>r. shopifyImageId r \<noteq> item_id item) (rows w) = rows w"
      using n1 by (rule filter_absent_key)
    with w1 rs' have "rows w1 = rows w @ [r0]" by auto
    with rs'(2) n2 show ?thesis
      by (simp add: w2 filter_absent_key)
  qed
  from a b1 b2 e show ?thesis by blast
qed

text \<open>
  An instance: the table holds a row of another image; the item is committed and then
  restored under its new identifier.
\<close>

theorem commit_then_restore_witness:
  "fst (commitImage (ex_env 2000) ex_session ex_item (ex_world [ex_record ''gid://shopify/ProductImage/9'']))
     = Inr \<lparr>beforeKb = 2, afterKb = 1, percent = percent_of 2 1, newId = ''gid://shopify/ProductImage/2''\<rparr>
   \<and> fst (restoreImage (ex_env 2000) ex_session (ex_item\<lparr>item_id := ''gid://shopify/ProductImage/2''\<rparr>)
         (snd (commitImage (ex_env 2000) ex_session ex_item (ex_world [ex_record ''gid://shopify/ProductImage/9'']))))
     = Inr ''restored''
   \<and> rows (snd (restoreImage (ex_env 2000) ex_session (ex_item\<lparr>item_id := ''gid://shopify/ProductImage/2''\<rparr>)
         (snd (commitImage (ex_env 2000) ex_session ex_item (ex_world [ex_record ''gid://shopify/ProductImage/9''])))))
     = [ex_record ''gid://shopify/ProductImage/9'']"
proof -
  let ?w = "ex_world [ex_record ''gid://shopify/ProductImage/9'']"
  let ?res = "\<lparr>beforeKb = 2, afterKb = 1, percent = percent_of 2 1, newId = ''gid://shopify/ProductImage/2''\<rparr>"
  let ?c = "commitImage (ex_env 2000) ex_session ex_item ?w"
  let ?r = "restoreImage (ex_env 2000) ex_session (ex_item\<lparr>item_id := newId ?res\<rparr>) (snd ?c)"
  have c: "?c = (Inr ?res, snd ?c)"
    by (simp add: run_defs ex_defs)
  have r: "?r = (Inr ''restored'', snd ?r)"
    by (simp add: run_defs ex_defs)
  have pending: "\<not> has_key (item_id ex_item) (rows ?w) \<and> \<not> has_key (newId ?res) (rows ?w)"
    by (simp add: has_key_def ex_defs)
  from commit_then_restore [OF c r]
  have "\<not> has_key (item_id ex_item) (rows ?w) \<and> \<not> has_key (newId ?res) (rows ?w)
          \<longrightarrow> rows (snd ?r) = rows ?w"
    by (rule conjunct2 [THEN conjunct2])
  with pending have same: "rows (snd ?r) = rows ?w" by (rule rev_mp)
  from c have c': "fst ?c = Inr ?res" by (metis fst_conv)
  from r have r': "fst ?r = Inr ''restored''" by (metis fst_conv)
  from same have same': "rows (snd ?r) = [ex_record ''gid://shopify/ProductImage/9'']"
    by (simp add: ex_world_def)
  from c' r' same' show ?thesis by simp
qed

text \<open>
  Claim C6, as amended. When the table has no row under the item's identifier, or the row
  found there has an empty \<open>originalUrl\<close>, a restore fails and leaves everything as it
  was: no row is touched, nothing is written to the database and no \<open>PUT\<close> is sent. With
  a valid session and a lookup that does not throw, the error is the not-found error.
\<close>

theorem restore_without_record:
  assumes "\<forall>r. find (\<lambda>r. shopifyImageId r = item_id item) (rows w) = Some r \<longrightarrow> originalUrl r = []"
  shows "snd (restoreImage env session item w) = w \<and>
         isl (fst (restoreImage env session item w)) \<and>
         (valid_session session \<and> prisma_throws env (FindUnique (item_id item)) = None
            \<longrightarrow> fst (restoreImage env session item w) = Inl OriginalNotFound)"
  using assms
  unfolding restoreImage_def Let_def prisma_findUnique_def
  by (auto simp: valid_session_def split: option.splits sum.splits)

text \<open>An instance: the table only holds a row of another image.\<close>

theorem restore_without_record_witness:
  "find (\<lambda>r. shopifyImageId r = item_id ex_item) (rows (ex_world [ex_record ''gid://shopify/ProductImage/9'']))
     = None
   \<and> valid_session ex_session
   \<and> prisma_throws (ex_env 0) (FindUnique (item_id ex_item)) = None
   \<and> restoreImage (ex_env 0) ex_session ex_item (ex_world [ex_record ''gid://shopify/ProductImage/9''])
       = (Inl OriginalNotFound, ex_world [ex_record ''gid://shopify/ProductImage/9''])"
proof -
  let ?w = "ex_world [ex_record ''gid://shopify/ProductImage/9'']"
  have none: "\<forall>r. find (\<lambda>r. shopifyImageId r = item_id ex_item) (rows ?w) = Some r \<longrightarrow> originalUrl r = []"
    by (simp add: ex_defs)
  have ok: "valid_session ex_session \<and> prisma_throws (ex_env 0) (FindUnique (item_id ex_item)) = None"
    by (simp add: ex_defs valid_session_def)
  note t = restore_without_record [OF none, of "ex_env 0" ex_session]
  from t have s: "snd (restoreImage (ex_env 0) ex_session ex_item ?w) = ?w" by (rule conjunct1)
  from t have "valid_session ex_session \<and> prisma_throws (ex_env 0) (FindUnique (item_id ex_item)) = None
      \<longrightarrow> fst (restoreImage (ex_env 0) ex_session ex_item ?w) = Inl OriginalNotFound"
    by (rule conjunct2 [THEN conjunct2])
  with ok have f: "fst (restoreImage (ex_env 0) ex_session ex_item ?w) = Inl OriginalNotFound"
    by (rule rev_mp)
  from f s have "restoreImage (ex_env 0) ex_session ex_item ?w = (Inl OriginalNotFound, ?w)"
    by (metis prod.collapse)
  moreover have "find (\<lambda>r. shopifyImageId r = item_id ex_item) (rows ?w) = None"
    by (simp add: ex_defs)
  ultimately show ?thesis using ok by simp
qed

text \<open>
  Claim C6 as stated fails without credentials: the session is tested before the lookup,
  and the restore fails with the invalid-session error, not the not-found error.
\<close>

theorem restore_invalid_session_counterexample:
  "\<not> has_key (item_id ex_item) (rows (ex_world []))
   \<and> restoreImage (ex_env 0) None ex_item (ex_world []) = (Inl InvalidSession, ex_world [])
   \<and> InvalidSession \<noteq> OriginalNotFound"
  by (simp add: restoreImage_def has_key_def ex_world_def)


section \<open>Scan\<close>

text \<open>
  One page adds a result for each of its images, in the order of the page, and the
  image's identifier to the set.
\<close>

lemma toCandidate_id [simp]: "item_id (toCandidate rm p img) = img_id img"
  by (simp add: toCandidate_def Let_def)

lemma fold_images_eq:
  "fold (\<lambda>img (results, seen). (results @ [toCandidate rm p img], insert (img_id img) seen)) imgs acc
     = (fst acc @ map (toCandidate rm p) imgs, snd acc \<union> img_id ` set imgs)"
  by (induction imgs arbitrary: acc) (auto split: prod.splits)

lemma scan_product_eq:
  "scan_product rm p acc
     = (fst acc @ map (toCandidate rm p) (images p), snd acc \<union> img_id ` set (images p))"
  by (simp add: scan_product_def fold_images_eq)

lemma fold_products_eq:
  "fold (scan_product rm) ps acc
     = (fst acc @ concat (map (\<lambda>p. map (toCandidate rm p) (images p)) ps),
        snd acc \<union> img_id ` set (concat (map images ps)))"
  by (induction ps arbitrary: acc) (auto simp: scan_product_eq)

lemma scan_page_eq:
  "scan_page rm page acc
     = (fst acc @ page_candidates rm page, snd acc \<union> img_id ` set (page_images page))"
  by (simp add: scan_page_def fold_products_eq page_candidates_def page_images_def)

lemma length_page_candidates:
  "length (page_candidates rm page) = length (page_images page)"
  by (simp add: page_candidates_def page_images_def length_concat comp_def)

lemma page_candidates_ids:
  "map item_id (page_candidates rm page) = map img_id (page_images page)"
  by (simp add: page_candidates_def page_images_def map_concat comp_def)

text \<open>The three ways in which a turn of the paging loop goes.\<close>

lemma page_loop_throw:
  assumes "graphql env cursor = Inl m"
  shows "page_loop env rm cursor acc = Some (Threw m (fst acc) (snd acc))"
  using assms by (subst page_loop.simps) simp

lemma page_loop_next:
  assumes "graphql env cursor = Inr page"
    and "\<not> 2500 < length (fst (scan_page rm page acc))" and "hasNextPage page"
  shows "page_loop env rm cursor acc = page_loop env rm (endCursor page) (scan_page rm page acc)"
  using assms by (subst page_loop.simps) simp

lemma page_loop_done:
  assumes "graphql env cursor = Inr page"
    and "2500 < length (fst (scan_page rm page acc)) \<or> \<not> hasNextPage page"
  shows "page_loop env rm cursor acc
           = Some (Done (fst (scan_page rm page acc)) (snd (scan_page rm page acc)))"
  using assms by (subst page_loop.simps) auto

text \<open>
  The loop returns, and what it returns is fixed by the pages served: the results are the
  candidates of all these pages, in order, after those it started with, and the set holds
  the identifiers of all their images.
\<close>

lemma fetched_page_loop:
  assumes "fetched env cursor k pages e" and "k = length (fst acc)"
  shows "page_loop env rm cursor acc
           = Some ((case e of None \<Rightarrow> Done | Some m \<Rightarrow> Threw m)
                     (fst acc @ concat (map (page_candidates rm) pages))
                     (snd acc \<union> img_id ` set (concat (map page_images pages))))"
  using assms
proof (induction arbitrary: acc rule: fetched.induct)
  case (query_throws cursor m k)
  then show ?case by (simp add: page_loop_throw)
next
  case (last_page cursor page k)
  then show ?case by (simp add: page_loop_done scan_page_eq)
next
  case (cap_reached cursor page k)
  then show ?case by (simp add: page_loop_done scan_page_eq length_page_candidates)
next
  case (next_page cursor page k pages e)
  from next_page.hyps next_page.prems
  have "page_loop env rm cursor acc = page_loop env rm (endCursor page) (scan_page rm page acc)"
    by (intro page_loop_next) (simp_all add: scan_page_eq length_page_candidates)
  also have "\<dots> = Some ((case e of None \<Rightarrow> Done | Some m \<Rightarrow> Threw m)
                     (fst (scan_page rm page acc) @ concat (map (page_candidates rm) pages))
                     (snd (scan_page rm page acc) \<union> img_id ` set (concat (map page_images pages))))"
    using next_page.prems
    by (intro next_page.IH) (simp add: scan_page_eq length_page_candidates)
  finally show ?case by (simp add: scan_page_eq Un_assoc image_Un)
qed

text \<open>The same for a whole scan, which pages only when it is a scan of products.\<close>

lemma scanned_page_loop:
  assumes "scanned env type pages e"
  shows "(if type = ''all'' \<or> type = ''products''
          then page_loop env rm None ([], {}) else Some (Done [] {}))
         = Some ((case e of None \<Rightarrow> Done | Some m \<Rightarrow> Threw m)
                   (concat (map (page_candidates rm) pages))
                   (img_id ` set (concat (map page_images pages))))"
proof (cases "type = ''all'' \<or> type = ''products''")
  case True
  with assms have "fetched env None 0 pages e" by (simp add: scanned_def)
  from fetched_page_loop [OF this, of "([], {})" rm] True show ?thesis by simp
next
  case False
  with assms show ?thesis by (simp add: scanned_def)
qed

text \<open>
  Claim C4, as amended. Let a scan run to its end without a caught error, and let
  \<open>pages\<close> be the catalog pages it was served. Then its results are the candidates of
  these pages, and the table is left with exactly the rows whose key is the identifier of
  an image of these pages, in their order; the other rows are gone. When there is such a
  stale row, the scan has made one database write, a single \<open>deleteMany\<close> of all the stale
  keys, issued after the paging loop has returned; otherwise it has made none. No \<open>PUT\<close>
  is sent.
\<close>

theorem scanShop_removes_stale:
  assumes "scanShop env type w = Some (results, None, w')"
    and "scanned env type pages e"
  shows "results = concat (map (page_candidates (recordMap_of (rows w))) pages) \<and>
         rows w' = filter (\<lambda>r. shopifyImageId r \<in> img_id ` set (concat (map page_images pages)))
                     (rows w) \<and>
         http_log w' = http_log w \<and>
         db_log w' =
           (if \<exists>r \<in> set (rows w).
                 shopifyImageId r \<notin> img_id ` set (concat (map page_images pages))
            then db_log w @
                 [DeleteMany (map shopifyImageId
                    (filter (\<lambda>r. shopifyImageId r
                                  \<notin> img_id ` set (concat (map page_images pages))) (rows w)))]
            else db_log w)"
proof -
  let ?ids = "img_id ` set (concat (map page_images pages))"
  from assms(1) have fm: "prisma_findMany env w = Inr (rows w)"
    by (auto simp: scanShop_def prisma_findMany_def split: sum.splits option.splits)
  note loop = scanned_page_loop [OF assms(2), of "recordMap_of (rows w)"]
  from assms(1) fm loop have e: "e = None"
    by (cases e) (auto simp: scanShop_def Let_def split: sum.splits if_splits)
  from assms(1) fm loop e
  have res: "results = concat (map (page_candidates (recordMap_of (rows w))) pages)"
    by (auto simp: scanShop_def Let_def split: sum.splits if_splits)
  let ?stale = "filter (\<lambda>r. shopifyImageId r \<notin> ?ids) (rows w)"
  have rest: "rows w' = filter (\<lambda>r. shopifyImageId r \<in> ?ids) (rows w) \<and>
         http_log w' = http_log w \<and>
         db_log w' = (if \<exists>r \<in> set (rows w). shopifyImageId r \<notin> ?ids
                      then db_log w @ [DeleteMany (map shopifyImageId ?stale)] else db_log w)"
  proof (cases "0 < length ?stale")
    case True
    with assms(1) fm loop e have
      del: "prisma_deleteMany env (map shopifyImageId ?stale) w = Inr w'"
      by (auto simp: scanShop_def Let_def split: sum.splits if_splits)
    have ex: "\<exists>r \<in> set (rows w). shopifyImageId r \<notin> ?ids"
      using True by (auto simp: filter_empty_conv)
    have "filter (\<lambda>r. shopifyImageId r \<notin> shopifyImageId ` set ?stale) (rows w)
            = filter (\<lambda>r. shopifyImageId r \<in> ?ids) (rows w)"
      by (rule filter_cong) auto
    with del ex show ?thesis
      by (auto simp: prisma_deleteMany_def split: option.splits)
  next
    case False
    with assms(1) fm loop e have same: "w' = w"
      by (auto simp: scanShop_def Let_def split: sum.splits if_splits)
    from False have all: "\<forall>r \<in> set (rows w). shopifyImageId r \<in> ?ids"
      by (auto simp: filter_empty_conv)
    then have "filter (\<lambda>r. shopifyImageId r \<in> ?ids) (rows w) = rows w"
      by (simp add: filter_id_conv)
    with same all show ?thesis by auto
  qed
  from res rest show ?thesis by simp
qed

text \<open>
  An instance: three pages with the images 1 to 4; the table holds rows for the images 1
  and 3 and a stale row for image 9.
\<close>

lemmas scan_defs =
  scanShop_def recordMap_of_def scan_page_eq page_candidates_def page_images_def toCandidate_def
  ex_catalog_def ex_catalog_broken_def ex_catalog_no_delete_def
  ex_page1_def ex_page2_def ex_page3_def ex_img_def

lemma ex_catalog_pages:
  "scanned ex_catalog ''all'' [ex_page1, ex_page2, ex_page3] None"
  unfolding scanned_def
  by (simp, intro fetched.next_page fetched.last_page)
     (simp_all add: ex_catalog_def ex_page1_def ex_page2_def ex_page3_def page_images_def)

theorem scanShop_removes_stale_witness:
  "scanned ex_catalog ''all'' [ex_page1, ex_page2, ex_page3] None
   \<and> map item_id (fst (the (scanShop ex_catalog ''all''
       (ex_world [ex_record ''gid://shopify/ProductImage/1'', ex_record ''gid://shopify/ProductImage/9'',
                  ex_record ''gid://shopify/ProductImage/3'']))))
     = [''gid://shopify/ProductImage/1'', ''gid://shopify/ProductImage/2'',
        ''gid://shopify/ProductImage/3'', ''gid://shopify/ProductImage/4'']
   \<and> fst (snd (the (scanShop ex_catalog ''all''
       (ex_world [ex_record ''gid://shopify/ProductImage/1'', ex_record ''gid://shopify/ProductImage/9'',
                  ex_record ''gid://shopify/ProductImage/3''])))) = None
   \<and> rows (snd (snd (the (scanShop ex_catalog ''all''
       (ex_world [ex_record ''gid://shopify/ProductImage/1'', ex_record ''gid://shopify/ProductImage/9'',
                  ex_record ''gid://shopify/ProductImage/3''])))))
     = [ex_record ''gid://shopify/ProductImage/1'', ex_record ''gid://shopify/ProductImage/3'']
   \<and> db_log (snd (snd (the (scanShop ex_catalog ''all''
       (ex_world [ex_record ''gid://shopify/ProductImage/1'', ex_record ''gid://shopify/ProductImage/9'',
                  ex_record ''gid://shopify/ProductImage/3''])))))
     = [DeleteMany [''gid://shopify/ProductImage/9'']]"
proof -
  let ?w = "ex_world [ex_record ''gid://shopify/ProductImage/1'', ex_record ''gid://shopify/ProductImage/9'',
                  ex_record ''gid://shopify/ProductImage/3'']"
  let ?s = "the (scanShop ex_catalog ''all'' ?w)"
  let ?pages = "[ex_page1, ex_page2, ex_page3]"
  let ?ids = "img_id ` set (concat (map page_images ?pages))"
  have run: "scanShop ex_catalog ''all'' ?w = Some (fst ?s, None, snd (snd ?s))"
    by (simp add: scan_defs page_loop.simps run_defs ex_defs)
  note pages = ex_catalog_pages
  have ids: "?ids = {''gid://shopify/ProductImage/1'', ''gid://shopify/ProductImage/2'',
                     ''gid://shopify/ProductImage/3'', ''gid://shopify/ProductImage/4''}"
    by (auto simp: page_images_def ex_page1_def ex_page2_def ex_page3_def ex_img_def)
  note t = scanShop_removes_stale [OF run pages]
  from t have "fst ?s = concat (map (page_candidates (recordMap_of (rows ?w))) ?pages)"
    by (rule conjunct1)
  then have "map item_id (fst ?s)
      = map item_id (concat (map (page_candidates (recordMap_of (rows ?w))) ?pages))"
    by (simp only:)
  then have r1: "map item_id (fst ?s)
     = [''gid://shopify/ProductImage/1'', ''gid://shopify/ProductImage/2'',
        ''gid://shopify/ProductImage/3'', ''gid://shopify/ProductImage/4'']"
    by (simp add: page_candidates_ids page_images_def ex_page1_def ex_page2_def ex_page3_def
          ex_img_def)
  from t have "rows (snd (snd ?s)) = filter (\<lambda>r. shopifyImageId r \<in> ?ids) (rows ?w)"
    by (rule conjunct2 [THEN conjunct1])
  then have r2: "rows (snd (snd ?s))
     = [ex_record ''gid://shopify/ProductImage/1'', ex_record ''gid://shopify/ProductImage/3'']"
    unfolding ids by (simp add: ex_defs)
  from t have "db_log (snd (snd ?s)) =
           (if \<exists>r \<in> set (rows ?w). shopifyImageId r \<notin> ?ids
            then db_log ?w @
                 [DeleteMany (map shopifyImageId
                    (filter (\<lambda>r. shopifyImageId r \<notin> ?ids) (rows ?w)))]
            else db_log ?w)"
    by (rule conjunct2 [THEN conjunct2, THEN conjunct2])
  then have r3: "db_log (snd (snd ?s)) = [DeleteMany [''gid://shopify/ProductImage/9'']]"
    unfolding ids by (simp add: ex_defs)
  from run have r4: "fst (snd ?s) = None"
    by (metis fst_conv snd_conv option.sel)
  from pages r1 r4 r2 r3 show ?thesis by (intro conjI)
qed

text \<open>
  Claim C4 as stated fails when the \<open>deleteMany\<close> of the clean-up throws: the paging has
  completed over the same three pages, the error is caught, the scan returns its four
  results, and the stale row of image 9 is still in the table.
\<close>

theorem scanShop_cleanup_throws_counterexample:
  "scanned ex_catalog_no_delete ''all'' [ex_page1, ex_page2, ex_page3] None
   \<and> map item_id (fst (the (scanShop ex_catalog_no_delete ''all''
       (ex_world [ex_record ''gid://shopify/ProductImage/1'', ex_record ''gid://shopify/ProductImage/9'',
                  ex_record ''gid://shopify/ProductImage/3'']))))
     = [''gid://shopify/ProductImage/1'', ''gid://shopify/ProductImage/2'',
        ''gid://shopify/ProductImage/3'', ''gid://shopify/ProductImage/4'']
   \<and> map shopifyImageId (rows (snd (snd (the (scanShop ex_catalog_no_delete ''all''
       (ex_world [ex_record ''gid://shopify/ProductImage/1'', ex_record ''gid://shopify/ProductImage/9'',
                  ex_record ''gid://shopify/ProductImage/3''])))))) 
     = [''gid://shopify/ProductImage/1'', ''gid://shopify/ProductImage/9'', ''gid://shopify/ProductImage/3'']
   \<and> fst (snd (the (scanShop ex_catalog_no_delete ''all''
       (ex_world [ex_record ''gid://shopify/ProductImage/1'', ex_record ''gid://shopify/ProductImage/9'',
                  ex_record ''gid://shopify/ProductImage/3'']))))
     = Some ''connection lost''"
proof -
  have "scanned ex_catalog_no_delete ''all'' [ex_page1, ex_page2, ex_page3] None"
    unfolding scanned_def
    by (simp, intro fetched.next_page fetched.last_page)
       (simp_all add: ex_catalog_no_delete_def ex_catalog_def ex_page1_def ex_page2_def
          ex_page3_def page_images_def)
  then show ?thesis
    by (simp add: scan_defs page_loop.simps run_defs ex_defs)
qed

text \<open>
  Claim C10. When loading the rows throws, the scan returns no results; when a query of
  the paging loop throws after the catalog has served \<open>pages\<close>, the scan returns the
  candidates of all these pages, in order. In both cases the scan returns (it does not
  pass the error on) and the world is the one it started in: no clean-up, no write. More
  generally a scan that has caught any error returns the world unchanged.
\<close>

theorem scanShop_error_keeps_store:
  "(\<forall>m. prisma_findMany env w = Inl m \<longrightarrow> scanShop env type w = Some ([], Some m, w)) \<and>
   (\<forall>existingRecords pages m.
      prisma_findMany env w = Inr existingRecords \<and> (type = ''all'' \<or> type = ''products'') \<and>
      fetched env None 0 pages (Some m)
      \<longrightarrow> scanShop env type w
            = Some (concat (map (page_candidates (recordMap_of existingRecords)) pages),
                    Some m, w)) \<and>
   (\<forall>results m w'. scanShop env type w = Some (results, Some m, w') \<longrightarrow> w' = w)"
proof (intro conjI allI impI)
  fix m
  assume "prisma_findMany env w = Inl m"
  then show "scanShop env type w = Some ([], Some m, w)"
    by (simp add: scanShop_def)
next
  fix existingRecords pages m
  assume a: "prisma_findMany env w = Inr existingRecords \<and>
      (type = ''all'' \<or> type = ''products'') \<and> fetched env None 0 pages (Some m)"
  then have "page_loop env (recordMap_of existingRecords) None ([], {})
      = Some (Threw m (concat (map (page_candidates (recordMap_of existingRecords)) pages))
                (img_id ` set (concat (map page_images pages))))"
    using fetched_page_loop [of env None 0 pages "Some m" "([], {})" "recordMap_of existingRecords"]
    by simp
  with a show "scanShop env type w
      = Some (concat (map (page_candidates (recordMap_of existingRecords)) pages), Some m, w)"
    by (simp add: scanShop_def)
next
  fix results m w'
  assume "scanShop env type w = Some (results, Some m, w')"
  then show "w' = w"
    by (auto simp: scanShop_def Let_def split: sum.splits option.splits paging.splits if_splits)
qed

text \<open>
  An instance: the query for the third page throws; the three results of the first two
  pages come back and the stale row of image 9 stays.
\<close>

theorem scanShop_error_keeps_store_witness:
  "prisma_findMany ex_catalog_broken
       (ex_world [ex_record ''gid://shopify/ProductImage/1'', ex_record ''gid://shopify/ProductImage/9''])
     = Inr [ex_record ''gid://shopify/ProductImage/1'', ex_record ''gid://shopify/ProductImage/9'']
   \<and> fetched ex_catalog_broken None 0 [ex_page1, ex_page2] (Some ''fetch failed'')
   \<and> scanShop ex_catalog_broken ''all''
       (ex_world [ex_record ''gid://shopify/ProductImage/1'', ex_record ''gid://shopify/ProductImage/9''])
     = Some (concat (map (page_candidates
                (recordMap_of [ex_record ''gid://shopify/ProductImage/1'',
                               ex_record ''gid://shopify/ProductImage/9'']))
                [ex_page1, ex_page2]),
             Some ''fetch failed'',
             ex_world [ex_record ''gid://shopify/ProductImage/1'', ex_record ''gid://shopify/ProductImage/9''])
   \<and> map item_id (concat (map (page_candidates
                (recordMap_of [ex_record ''gid://shopify/ProductImage/1'',
                               ex_record ''gid://shopify/ProductImage/9'']))
                [ex_page1, ex_page2]))
     = [''gid://shopify/ProductImage/1'', ''gid://shopify/ProductImage/2'',
        ''gid://shopify/ProductImage/3'']"
proof -
  let ?rs = "[ex_record ''gid://shopify/ProductImage/1'', ex_record ''gid://shopify/ProductImage/9'']"
  let ?w = "ex_world ?rs"
  let ?res = "concat (map (page_candidates (recordMap_of ?rs)) [ex_page1, ex_page2])"
  have fm: "prisma_findMany ex_catalog_broken ?w = Inr ?rs"
    by (simp add: prisma_findMany_def ex_catalog_broken_def ex_env_def ex_world_def)
  have pages: "fetched ex_catalog_broken None 0 [ex_page1, ex_page2] (Some ''fetch failed'')"
    by (intro fetched.next_page fetched.query_throws)
       (simp_all add: ex_catalog_broken_def ex_page1_def ex_page2_def page_images_def)
  have hyp: "prisma_findMany ex_catalog_broken ?w = Inr ?rs \<and>
      (''all'' = ''all'' \<or> ''all'' = ''products'') \<and>
      fetched ex_catalog_broken None 0 [ex_page1, ex_page2] (Some ''fetch failed'')"
    using fm pages by simp
  from scanShop_error_keeps_store [of ex_catalog_broken ?w "''all''"]
  have "\<forall>existingRecords pages m.
      prisma_findMany ex_catalog_broken ?w = Inr existingRecords \<and>
      (''all'' = ''all'' \<or> ''all'' = ''products'') \<and>
      fetched ex_catalog_broken None 0 pages (Some m)
      \<longrightarrow> scanShop ex_catalog_broken ''all'' ?w
            = Some (concat (map (page_candidates (recordMap_of existingRecords)) pages),
                    Some m, ?w)"
    by (rule conjunct2 [THEN conjunct1])
  with hyp have scan: "scanShop ex_catalog_broken ''all'' ?w = Some (?res, Some ''fetch failed'', ?w)"
    by blast
  have ids: "map item_id ?res
      = [''gid://shopify/ProductImage/1'', ''gid://shopify/ProductImage/2'',
         ''gid://shopify/ProductImage/3'']"
    by (simp add: page_candidates_ids page_images_def ex_page1_def ex_page2_def ex_img_def)
  from fm pages scan ids show ?thesis by (intro conjI)
qed

section \<open>Bulk runs\<close>



lemma fold_apply_event_submitted [simp]:
  "submitted (fold apply_event es c) = submitted c"
proof (induction es arbitrary: c)
  case Nil
  show ?case by simp
next
  case (Cons e es)
  show ?case by (cases e) (simp_all add: Cons.IH)
qed








text \<open>
  The loop of \<open>worker\<close>: what it submits, how it counts, and when it ends.
\<close>

lemma failures_append [simp]:
  "failures env mode (xs @ ys) = failures env mode xs + failures env mode ys"
  by (simp add: failures_def)

lemma successes_append [simp]:
  "successes env mode (xs @ ys) = successes env mode xs + successes env mode ys"
  by (simp add: successes_def)


















end
